theory Spec2Isabelle
  imports Complex_Main
begin

section \<open>Tables, columns and cells\<close>

text \<open>
  The program is \<^verbatim>\<open>src/data_analysis.py\<close>. Its date detector
  \<^verbatim>\<open>auto_convert_datetime\<close> (lines 64 to 112) and the handler of the manual
  conversion button (lines 329 to 366) work on a data frame of the table library.

  A cell is a missing value (\<^verbatim>\<open>NaN\<close>, \<^verbatim>\<open>None\<close>, \<^verbatim>\<open>NaT\<close>), a
  number, a text or a time stamp (nanoseconds since the epoch). A column carries its
  dtype: a numeric column holds numbers or missing values only, a date/time column holds
  time stamps or missing values only, and an object column holds any cells. A table is
  the ordered list of its named columns; the data model takes the names to be unique.
  Numbers are reals: the only arithmetic the detector does on them is the comparison of
  the column maximum with \<^verbatim>\<open>1e9\<close>.
\<close>

datatype cell = NA | Num real | Str string | Dt int

datatype column = NumCol "real option list" | DtCol "int option list" | ObjCol "cell list"

type_synonym table = "(string \<times> column) list"

fun num_cell :: "real option \<Rightarrow> cell" where
  "num_cell None = NA"
| "num_cell (Some v) = Num v"

fun dt_cell :: "int option \<Rightarrow> cell" where
  "dt_cell None = NA"
| "dt_cell (Some t) = Dt t"

text \<open>The values of a column, in row order.\<close>

fun values_of :: "column \<Rightarrow> cell list" where
  "values_of (NumCol xs) = map num_cell xs"
| "values_of (DtCol ts) = map dt_cell ts"
| "values_of (ObjCol cs) = cs"

text \<open>\<^verbatim>\<open>Series.dropna()\<close>: the non-missing values, in row order.\<close>

definition dropna :: "cell list \<Rightarrow> cell list" where
  "dropna vs = filter (\<lambda>v. v \<noteq> NA) vs"

text \<open>\<^verbatim>\<open>pd.api.types.is_numeric_dtype\<close>.\<close>

fun is_numeric_dtype :: "column \<Rightarrow> bool" where
  "is_numeric_dtype (NumCol xs) = True"
| "is_numeric_dtype (DtCol ts) = False"
| "is_numeric_dtype (ObjCol cs) = False"

fun is_datetime_dtype :: "column \<Rightarrow> bool" where
  "is_datetime_dtype (DtCol ts) = True"
| "is_datetime_dtype (NumCol xs) = False"
| "is_datetime_dtype (ObjCol cs) = False"

text \<open>
  \<^verbatim>\<open>Series.max()\<close> skips missing values and is \<^verbatim>\<open>NaN\<close> when there is none;
  \<^verbatim>\<open>NaN > 1e9\<close> is false. \<open>max_exceeds c b\<close> is \<^verbatim>\<open>df[col].max() > b\<close>; the
  source evaluates it on numeric columns only.
\<close>

fun present :: "'a option list \<Rightarrow> 'a list" where
  "present [] = []"
| "present (None # xs) = present xs"
| "present (Some x # xs) = x # present xs"

definition series_max :: "real option list \<Rightarrow> real option" where
  "series_max xs = (case present xs of [] \<Rightarrow> None | v # vs \<Rightarrow> Some (fold max vs v))"

fun max_exceeds :: "column \<Rightarrow> real \<Rightarrow> bool" where
  "max_exceeds (NumCol xs) b = (case series_max xs of None \<Rightarrow> False | Some m \<Rightarrow> m > b)"
| "max_exceeds (DtCol ts) b = False"
| "max_exceeds (ObjCol cs) b = False"

text \<open>The length of a column, and the row count shared by the columns of a table.\<close>

definition col_len :: "column \<Rightarrow> nat" where
  "col_len c = length (values_of c)"

definition has_rows :: "table \<Rightarrow> nat \<Rightarrow> bool" where
  "has_rows t n = list_all (\<lambda>p. col_len (snd p) = n) t"

definition columns :: "table \<Rightarrow> string list" where
  "columns t = map fst t"

text \<open>
  \<^verbatim>\<open>d[k] = v\<close> on a data frame and on a dict: an existing key keeps its position and
  takes the new value, a new key goes to the end.
\<close>

primrec setitem :: "('k \<times> 'v) list \<Rightarrow> 'k \<Rightarrow> 'v \<Rightarrow> ('k \<times> 'v) list" where
  "setitem [] k v = [(k, v)]"
| "setitem (p # ps) k v = (if fst p = k then (k, v) # ps else p # setitem ps k v)"

datatype exn = ZeroDivisionError | KeyError string

text \<open>\<^verbatim>\<open>df[col]\<close>: the first column of that name, \<^verbatim>\<open>KeyError\<close> when there is none.\<close>

definition getitem :: "table \<Rightarrow> string \<Rightarrow> exn + column" where
  "getitem t col = (case map_of t col of None \<Rightarrow> Inl (KeyError col) | Some c \<Rightarrow> Inr c)"

section \<open>The libraries the program calls\<close>

text \<open>
  The table library's \<^verbatim>\<open>to_datetime\<close>, the permissive date parser
  \<^verbatim>\<open>dateutil.parser.parse\<close> and Python's \<^verbatim>\<open>str\<close> are not part of the
  repository. What they decide for one value is a parameter of the model:
  \<^item> \<open>cell_dt k vs v\<close>: the time stamp \<^verbatim>\<open>to_datetime\<close> gives the non-missing value
    \<open>v\<close> of a column with values \<open>vs\<close> under the keyword arguments \<open>k\<close>
    (\<^verbatim>\<open>unit='s'\<close>, \<^verbatim>\<open>unit='ms'\<close>, \<^verbatim>\<open>format=f\<close>, or neither), \<open>None\<close> when
    the value does not parse or is out of range;
  \<^item> \<open>format_error f\<close>: the text of the exception raised for a format string that is not
    a format at all, \<open>None\<close> for a valid one;
  \<^item> \<open>coerce_error k vs\<close>: the text of the exception that a call with \<^verbatim>\<open>unit=\<close> or
    \<^verbatim>\<open>format=\<close> raises on the values \<open>vs\<close> even under \<^verbatim>\<open>errors='coerce'\<close> (a
    number that overflows the unit conversion, for one), \<open>None\<close> when the call returns;
  \<^item> \<open>py_str v\<close>: \<^verbatim>\<open>str(val)\<close>;
  \<^item> \<open>dateutil_parse s\<close>: whether \<^verbatim>\<open>parse(s)\<close> returns (it raises otherwise).
\<close>

datatype tunit = Seconds | Millis

datatype conv = Epoch tunit | Format string | Infer

datatype errors = Raise | Coerce

record lib =
  cell_dt :: "conv \<Rightarrow> cell list \<Rightarrow> cell \<Rightarrow> int option"
  format_error :: "string \<Rightarrow> string option"
  coerce_error :: "conv \<Rightarrow> cell list \<Rightarrow> string option"
  py_str :: "cell \<Rightarrow> string"
  dateutil_parse :: "string \<Rightarrow> bool"

text \<open>
  The result for one cell: \<open>None\<close> when the value fails to parse, \<open>Some None\<close> for a
  missing value (it stays missing), \<open>Some (Some t)\<close> for a parsed time stamp.
\<close>

fun convert_cell :: "lib \<Rightarrow> conv \<Rightarrow> cell list \<Rightarrow> cell \<Rightarrow> int option option" where
  "convert_cell L k vs NA = Some None"
| "convert_cell L k vs v = map_option Some (cell_dt L k vs v)"

fun coerced :: "int option option \<Rightarrow> int option" where
  "coerced None = None"
| "coerced (Some r) = r"

fun bad_format :: "lib \<Rightarrow> conv \<Rightarrow> string option" where
  "bad_format L (Format f) = format_error L f"
| "bad_format L (Epoch u) = None"
| "bad_format L Infer = None"

text \<open>
  What \<^verbatim>\<open>errors='coerce'\<close> does not turn into missing values. The call with neither
  \<^verbatim>\<open>unit=\<close> nor \<^verbatim>\<open>format=\<close>, the one the detector makes, converts value by
  value and coerces every failure; a call with \<^verbatim>\<open>unit=\<close> or \<^verbatim>\<open>format=\<close> can
  still raise as a whole, as the library parameter says.
\<close>

fun uncoerced :: "lib \<Rightarrow> conv \<Rightarrow> cell list \<Rightarrow> string option" where
  "uncoerced L Infer vs = None"
| "uncoerced L (Epoch u) vs = coerce_error L (Epoch u) vs"
| "uncoerced L (Format f) vs = coerce_error L (Format f) vs"

text \<open>
  \<^verbatim>\<open>pd.to_datetime(series, unit=.., format=.., errors=..)\<close>, after the library's
  documentation: a date/time column is returned as it is; an invalid format string raises;
  otherwise every cell is converted on its own and the result is a date/time column of
  the same length. Under \<^verbatim>\<open>errors='raise'\<close> (the default) a cell that fails to parse
  raises. Under \<^verbatim>\<open>errors='coerce'\<close> such a cell becomes a missing value, and the
  call raises only for what it does not coerce. The left summand is the text of the
  exception.
\<close>

definition to_datetime :: "lib \<Rightarrow> conv \<Rightarrow> errors \<Rightarrow> column \<Rightarrow> string + column" where
  "to_datetime L k e c =
     (if is_datetime_dtype c then Inr c
      else case bad_format L k of
        Some msg \<Rightarrow> Inl msg
      | None \<Rightarrow>
          (let rs = map (convert_cell L k (values_of c)) (values_of c)
           in case e of
                Raise \<Rightarrow>
                  if None \<in> set rs then Inl ''OutOfBoundsDatetime''
                  else Inr (DtCol (map coerced rs))
              | Coerce \<Rightarrow>
                  (case uncoerced L k (values_of c) of
                     Some msg \<Rightarrow> Inl msg
                   | None \<Rightarrow> Inr (DtCol (map coerced rs)))))"

text \<open>
  \<^verbatim>\<open>Series.sample(n)\<close> draws \<open>n\<close> values without replacement. The random numbers
  it consumes are an explicit stream: each draw takes the next number modulo the number
  of values left (position 0 once the stream is used up) and removes the drawn value.
  The source asks for \<^verbatim>\<open>min(10, len(..))\<close> values, so the values never run out.
\<close>

fun draw :: "nat \<Rightarrow> 'a list \<Rightarrow> nat list \<Rightarrow> 'a list \<times> nat list" where
  "draw 0 xs rs = ([], rs)"
| "draw (Suc n) [] rs = ([], rs)"
| "draw (Suc n) (x # xs) [] =
     (let (ys, rs') = draw n xs [] in (x # ys, rs'))"
| "draw (Suc n) (x # xs) (r # rs) =
     (let i = r mod length (x # xs);
          (ys, rs') = draw n (take i (x # xs) @ drop (Suc i) (x # xs)) rs
      in ((x # xs) ! i # ys, rs'))"

section \<open>The date detector\<close>

text \<open>
  The state of the loop of \<^verbatim>\<open>auto_convert_datetime\<close>: the data frame it mutates, the
  list \<^verbatim>\<open>date_cols\<close>, the dict \<^verbatim>\<open>converted_cols\<close> (in insertion order) and the
  random stream.
\<close>

record state =
  df :: table
  date_cols :: "string list"
  converted_cols :: "(string \<times> string) list"
  rng :: "nat list"

text \<open>
  Lines 75 to 77: the derived column \<^verbatim>\<open>col + '_datetime'\<close> is stored in the frame,
  recorded in \<^verbatim>\<open>converted_cols\<close> and appended to \<^verbatim>\<open>date_cols\<close>.
\<close>

definition derive :: "string \<Rightarrow> column \<Rightarrow> state \<Rightarrow> state" where
  "derive col converted s =
     s\<lparr>df := setitem (df s) (col @ ''_datetime'') converted,
       converted_cols := setitem (converted_cols s) col (col @ ''_datetime''),
       date_cols := date_cols s @ [col @ ''_datetime'']\<rparr>"

text \<open>
  Lines 73 to 90, the two \<^verbatim>\<open>try\<close> blocks: seconds first, then milliseconds; each
  \<^verbatim>\<open>except: pass\<close> swallows the exception of \<^verbatim>\<open>to_datetime\<close>. \<open>Some\<close> is the
  \<^verbatim>\<open>continue\<close>, \<open>None\<close> falls through to line 93.
\<close>

definition timestamp_path :: "lib \<Rightarrow> string \<Rightarrow> column \<Rightarrow> state \<Rightarrow> state option" where
  "timestamp_path L col c s =
     (case to_datetime L (Epoch Seconds) Raise c of
        Inr converted \<Rightarrow> Some (derive col converted s)
      | Inl _ \<Rightarrow>
          (case to_datetime L (Epoch Millis) Raise c of
             Inr converted \<Rightarrow> Some (derive col converted s)
           | Inl _ \<Rightarrow> None))"

text \<open>
  Lines 93 to 102: the sample of up to 10 non-missing values and the number of sampled
  values that the permissive parser accepts.
\<close>

definition take_sample :: "column \<Rightarrow> nat list \<Rightarrow> cell list \<times> nat list" where
  "take_sample c r =
     (let nonmissing = dropna (values_of c)
      in draw (min 10 (length nonmissing)) nonmissing r)"

definition count_dates :: "lib \<Rightarrow> cell list \<Rightarrow> nat" where
  "count_dates L sample = length (filter (\<lambda>val. dateutil_parse L (py_str L val)) sample)"

text \<open>
  Lines 93 to 110. \<^verbatim>\<open>date_count / len(sample)\<close> is a true division: it raises
  \<^verbatim>\<open>ZeroDivisionError\<close> on an empty sample, outside every \<^verbatim>\<open>try\<close>. The quotient
  is compared with \<^verbatim>\<open>0.7\<close> in floating point; for the sample sizes 1 to 10 the
  correctly rounded quotient exceeds the double \<^verbatim>\<open>0.7\<close> exactly when the rational
  quotient exceeds 7/10 (7/10 itself rounds to that double), so the comparison is
  written over the reals.
\<close>

definition parse_path :: "lib \<Rightarrow> string \<Rightarrow> column \<Rightarrow> state \<Rightarrow> exn + state" where
  "parse_path L col c s =
     (let (sample, r') = take_sample c (rng s);
          date_count = count_dates L sample;
          s1 = s\<lparr>rng := r'\<rparr>
      in if length sample = 0 then Inl ZeroDivisionError
         else if real date_count / real (length sample) > 7 / 10 then
           (case to_datetime L Infer Coerce c of
              Inr converted \<Rightarrow>
                Inr (s1\<lparr>df := setitem (df s1) col converted,
                        date_cols := date_cols s1 @ [col]\<rparr>)
            | Inl _ \<Rightarrow> Inr s1)
         else Inr s1)"

text \<open>The body of the loop over the columns, lines 70 to 110.\<close>

definition loop_body :: "lib \<Rightarrow> string \<Rightarrow> state \<Rightarrow> exn + state" where
  "loop_body L col s =
     (case getitem (df s) col of
        Inl e \<Rightarrow> Inl e
      | Inr c \<Rightarrow>
          (case (if is_numeric_dtype c \<and> max_exceeds c 1000000000
                 then timestamp_path L col c s else None) of
             Some s' \<Rightarrow> Inr s'
           | None \<Rightarrow> parse_path L col c s))"

text \<open>
  \<^verbatim>\<open>for col in df.columns\<close>: the column index is an immutable object that the
  assignments of the body replace, so the loop runs over the names the frame had on
  entry, and reads each column as the frame holds it when its turn comes.
\<close>

fun for_columns :: "lib \<Rightarrow> string list \<Rightarrow> state \<Rightarrow> exn + state" where
  "for_columns L [] s = Inr s"
| "for_columns L (col # cols) s =
     (case loop_body L col s of
        Inl e \<Rightarrow> Inl e
      | Inr s' \<Rightarrow> for_columns L cols s')"

definition auto_convert_datetime ::
  "lib \<Rightarrow> table \<Rightarrow> nat list \<Rightarrow> exn + table \<times> string list \<times> (string \<times> string) list" where
  "auto_convert_datetime L t r =
     (case for_columns L (columns t) \<lparr>df = t, date_cols = [], converted_cols = [], rng = r\<rparr> of
        Inl e \<Rightarrow> Inl e
      | Inr s \<Rightarrow> Inr (df s, date_cols s, converted_cols s))"

section \<open>The manual conversion button\<close>







section \<open>A small library instance\<close>

text \<open>
  An instance of the library parameters on which the model can be evaluated. It knows a
  handful of calendar dates in ISO and in US notation, converts numbers by their unit
  within the 64-bit nanosecond range of the table library, prints every time stamp as
  one text that the permissive parser accepts, rejects every format string other
  than the three built-in ones and \<^verbatim>\<open>%Y-%m\<close>, and raises \<^verbatim>\<open>OverflowError\<close>,
  coercing or not, when a unit is given and a number is beyond the 64-bit integers.
\<close>

definition iso_dates :: "(string \<times> int) list" where
  "iso_dates =
     [(''2023-01-01'', 1672531200000000000),
      (''2023-01-02'', 1672617600000000000),
      (''2023-01-03'', 1672704000000000000),
      (''2023-01-04'', 1672790400000000000)]"

definition us_dates :: "(string \<times> int) list" where
  "us_dates =
     [(''01/01/2023'', 1672531200000000000),
      (''01/02/2023'', 1672617600000000000),
      (''01/03/2023'', 1672704000000000000),
      (''01/04/2023'', 1672790400000000000)]"

definition in_bounds :: "int \<Rightarrow> int option" where
  "in_bounds t = (if - 9223372036854775808 < t \<and> t < 9223372036854775808 then Some t else None)"

fun ns_per :: "tunit \<Rightarrow> real" where
  "ns_per Seconds = 1000000000"
| "ns_per Millis = 1000000"

fun toy_cell_dt :: "conv \<Rightarrow> cell list \<Rightarrow> cell \<Rightarrow> int option" where
  "toy_cell_dt k vs (Dt t) = Some t"
| "toy_cell_dt k vs NA = None"
| "toy_cell_dt (Epoch u) vs (Num v) = in_bounds \<lfloor>v * ns_per u\<rfloor>"
| "toy_cell_dt Infer vs (Num v) = in_bounds \<lfloor>v\<rfloor>"
| "toy_cell_dt (Format f) vs (Num v) = None"
| "toy_cell_dt (Epoch u) vs (Str s) = None"
| "toy_cell_dt Infer vs (Str s) = map_of (iso_dates @ us_dates) s"
| "toy_cell_dt (Format f) vs (Str s) =
     (if f = ''%Y-%m-%d'' then map_of iso_dates s
      else if f = ''%m/%d/%Y'' then map_of us_dates s
      else None)"

definition toy_format_error :: "string \<Rightarrow> string option" where
  "toy_format_error f =
     (if f \<in> set [''%Y-%m-%d'', ''%m/%d/%Y'', ''%d/%m/%Y'', ''%Y-%m''] then None
      else Some (''bad directive in format '' @ f))"

fun too_large :: "cell \<Rightarrow> bool" where
  "too_large (Num v) = (9223372036854775808 \<le> \<bar>v\<bar>)"
| "too_large v = False"

fun toy_coerce_error :: "conv \<Rightarrow> cell list \<Rightarrow> string option" where
  "toy_coerce_error (Epoch u) vs = (if list_ex too_large vs then Some ''OverflowError'' else None)"
| "toy_coerce_error k vs = None"

fun toy_str :: "cell \<Rightarrow> string" where
  "toy_str (Str s) = s"
| "toy_str (Dt t) = ''<timestamp>''"
| "toy_str (Num v) = ''<number>''"
| "toy_str NA = ''nan''"

definition toy_parse :: "string \<Rightarrow> bool" where
  "toy_parse s = (s = ''<timestamp>'' \<or> s \<in> set (map fst (iso_dates @ us_dates)))"

definition toy_lib :: lib where
  "toy_lib = \<lparr>cell_dt = toy_cell_dt, format_error = toy_format_error,
              coerce_error = toy_coerce_error, py_str = toy_str, dateutil_parse = toy_parse\<rparr>"

section \<open>What a conversion yields, cell by cell\<close>

text \<open>
  The vocabulary of the claims. \<open>all_parse L k c\<close>: every non-missing value of the column
  parses under the keyword arguments \<open>k\<close>. \<open>parsed_values L k c\<close>: the parsed time
  stamps in row order, missing where the value is missing or does not parse.
  \<open>timestamp_like L c\<close>: the column is numeric, its maximum exceeds \<^verbatim>\<open>1e9\<close> and the
  seconds or the milliseconds reading succeeds; its negation is "the column reaches the
  sampling step". \<open>coerce_column\<close> and \<open>coerce_cell\<close>: the column and the cell after a
  coercing conversion.
\<close>

definition all_parse :: "lib \<Rightarrow> conv \<Rightarrow> column \<Rightarrow> bool" where
  "all_parse L k c = list_all (\<lambda>v. cell_dt L k (values_of c) v \<noteq> None) (dropna (values_of c))"

definition parsed_values :: "lib \<Rightarrow> conv \<Rightarrow> column \<Rightarrow> int option list" where
  "parsed_values L k c =
     map (\<lambda>v. if v = NA then None else cell_dt L k (values_of c) v) (values_of c)"

definition timestamp_like :: "lib \<Rightarrow> column \<Rightarrow> bool" where
  "timestamp_like L c \<longleftrightarrow>
     is_numeric_dtype c \<and> max_exceeds c 1000000000 \<and>
     (all_parse L (Epoch Seconds) c \<or> all_parse L (Epoch Millis) c)"

definition coerce_column :: "lib \<Rightarrow> conv \<Rightarrow> column \<Rightarrow> column" where
  "coerce_column L k c = (if is_datetime_dtype c then c else DtCol (parsed_values L k c))"

definition coerce_cell :: "lib \<Rightarrow> conv \<Rightarrow> column \<Rightarrow> cell \<Rightarrow> cell" where
  "coerce_cell L k c v =
     (if v = NA then NA
      else case cell_dt L k (values_of c) v of None \<Rightarrow> NA | Some t \<Rightarrow> Dt t)"

text \<open>
  Two invariants of the loop. \<open>conversions_ok\<close>: every pair recorded in
  \<^verbatim>\<open>converted_cols\<close> names a source and the column derived from it, which the frame
  holds. \<open>derived_present L pending t\<close>: every timestamp-like column of the frame either
  still waits for its turn or has its derived column in the frame.
\<close>

definition conversions_ok :: "state \<Rightarrow> bool" where
  "conversions_ok s \<longleftrightarrow>
     (\<forall>p \<in> set (converted_cols s). snd p = fst p @ ''_datetime'' \<and> snd p \<in> set (columns (df s)))"

definition derived_present :: "lib \<Rightarrow> string list \<Rightarrow> table \<Rightarrow> bool" where
  "derived_present L pending t \<longleftrightarrow>
     (\<forall>name c. getitem t name = Inr c \<and> timestamp_like L c \<longrightarrow>
        name \<in> set pending \<or> name @ ''_datetime'' \<in> set (columns t))"

section \<open>Example tables\<close>

text \<open>
  A frame with the one numeric column \<^verbatim>\<open>ts\<close>, and a frame with the one text column
  \<^verbatim>\<open>d\<close> that holds \<open>good\<close> dates followed by \<open>bad\<close> texts that are no dates; both
  at the start of the loop, with the random stream used up (the sample is then drawn in
  row order).
\<close>

definition epoch_state :: "real option list \<Rightarrow> state" where
  "epoch_state xs = \<lparr>df = [(''ts'', NumCol xs)], date_cols = [], converted_cols = [], rng = []\<rparr>"

definition text_column :: "nat \<Rightarrow> nat \<Rightarrow> column" where
  "text_column good bad =
     ObjCol (replicate good (Str ''2023-01-01'') @ replicate bad (Str ''not-a-date''))"

definition text_state :: "nat \<Rightarrow> nat \<Rightarrow> state" where
  "text_state good bad =
     \<lparr>df = [(''d'', text_column good bad)], date_cols = [], converted_cols = [], rng = []\<rparr>"

text \<open>
  A table with a column of second counts and a column of texts, three of four of which
  are dates, and what the detector makes of it; a session whose one column holds
  dates in US notation; and a session whose one column holds a second count and the
  number \<^verbatim>\<open>1e30\<close>.
\<close>

definition mixed_table :: table where
  "mixed_table =
     [(''ts'', NumCol [Some 1700000000, Some 1700086400, None, Some 1700172800]),
      (''d'', ObjCol [Str ''2023-01-01'', Str ''01/02/2023'', Str ''not-a-date'',
                      Str ''2023-01-04''])]"

definition mixed_result :: table where
  "mixed_result =
     [(''ts'', NumCol [Some 1700000000, Some 1700086400, None, Some 1700172800]),
      (''d'', DtCol [Some 1672531200000000000, Some 1672617600000000000, None,
                     Some 1672790400000000000]),
      (''ts_datetime'', DtCol [Some 1700000000000000000, Some 1700086400000000000, None,
                               Some 1700172800000000000])]"



section \<open>Basic facts\<close>

lemmas detector_defs = auto_convert_datetime_def columns_def loop_body_def getitem_def
  parse_path_def take_sample_def dropna_def count_dates_def timestamp_path_def derive_def
  to_datetime_def series_max_def

lemmas toy_defs = toy_lib_def toy_parse_def toy_format_error_def iso_dates_def us_dates_def
  in_bounds_def

lemma columns_setitem:
  "columns (setitem t k v) = (if k \<in> set (columns t) then columns t else columns t @ [k])"
  by (induction t) (auto simp: columns_def)

lemma map_of_setitem: "map_of (setitem t k v) = (map_of t)(k \<mapsto> v)"
  by (induction t) (auto simp: fun_eq_iff)

lemma set_setitem: "set (setitem al k v) \<subseteq> insert (k, v) (set al)"
  by (induction al) auto

lemma getitem_Inr: "getitem t col = Inr c \<longleftrightarrow> map_of t col = Some c"
  by (simp add: getitem_def split: option.splits)

lemma getitem_columns: "getitem t col = Inr c \<Longrightarrow> col \<in> set (columns t)"
  by (auto simp: getitem_Inr columns_def dest: map_of_SomeD intro: rev_image_eqI)

lemma numeric_not_datetime: "is_numeric_dtype c \<Longrightarrow> \<not> is_datetime_dtype c"
  by (cases c) simp_all

lemma coerced_convert_cell:
  "coerced (convert_cell L k vs v) = (if v = NA then None else cell_dt L k vs v)"
  by (cases v; cases "cell_dt L k vs v") simp_all

lemma convert_cell_None:
  "convert_cell L k vs v = None \<longleftrightarrow> v \<noteq> NA \<and> cell_dt L k vs v = None"
  by (cases v) simp_all

lemma raise_iff:
  "None \<in> set (map (convert_cell L k vs) ws) \<longleftrightarrow>
     \<not> list_all (\<lambda>v. cell_dt L k vs v \<noteq> None) (dropna ws)"
  by (induction ws)
     (auto simp: dropna_def convert_cell_None convert_cell_None [THEN eq_iff_swap])

text \<open>The conversion of a column that is not yet a date/time column, with a valid format.\<close>

lemma to_datetime_cells:
  assumes "\<not> is_datetime_dtype c" "bad_format L k = None"
  shows "to_datetime L k e c =
     (case e of
        Raise \<Rightarrow>
          if all_parse L k c then Inr (DtCol (parsed_values L k c))
          else Inl ''OutOfBoundsDatetime''
      | Coerce \<Rightarrow>
          (case uncoerced L k (values_of c) of
             Some msg \<Rightarrow> Inl msg
           | None \<Rightarrow> Inr (DtCol (parsed_values L k c))))"
  using assms raise_iff [of L k "values_of c" "values_of c"]
  by (simp add: to_datetime_def all_parse_def parsed_values_def coerced_convert_cell Let_def
      split: errors.splits option.splits)

lemma to_datetime_datetime: "is_datetime_dtype c \<Longrightarrow> to_datetime L k e c = Inr c"
  by (simp add: to_datetime_def)

lemma to_datetime_coerce: "to_datetime L Infer Coerce c = Inr (coerce_column L Infer c)"
  by (cases "is_datetime_dtype c")
     (simp_all add: to_datetime_datetime to_datetime_cells coerce_column_def)

lemma datetime_coerce_column: "is_datetime_dtype (coerce_column L k c)"
  by (simp add: coerce_column_def)

lemma col_len_coerce_column: "col_len (coerce_column L k c) = col_len c"
  by (simp add: coerce_column_def col_len_def parsed_values_def)

lemma values_coerce_column:
  assumes "i < col_len c"
  shows "values_of (coerce_column L k c) ! i =
           (if is_datetime_dtype c then values_of c ! i else coerce_cell L k c (values_of c ! i))"
proof (cases "is_datetime_dtype c")
  case True
  then show ?thesis by (simp add: coerce_column_def)
next
  case False
  have "dt_cell (if v = NA then None else cell_dt L k (values_of c) v) = coerce_cell L k c v" for v
    by (simp add: coerce_cell_def split: option.splits)
  then show ?thesis
    using assms False
    by (simp add: coerce_column_def parsed_values_def col_len_def)
qed

text \<open>The two \<^verbatim>\<open>try\<close> blocks fall through exactly when both readings fail.\<close>

lemma timestamp_path_cases:
  assumes "is_numeric_dtype c"
  shows "timestamp_path L col c s =
     (if all_parse L (Epoch Seconds) c
      then Some (derive col (DtCol (parsed_values L (Epoch Seconds) c)) s)
      else if all_parse L (Epoch Millis) c
      then Some (derive col (DtCol (parsed_values L (Epoch Millis) c)) s)
      else None)"
proof -
  have nd: "\<not> is_datetime_dtype c" using assms by (rule numeric_not_datetime)
  show ?thesis
    by (simp add: timestamp_path_def to_datetime_cells [OF nd])
qed

lemma reaches_sampling:
  assumes "getitem (df s) col = Inr c" and "\<not> timestamp_like L c"
  shows "loop_body L col s = parse_path L col c s"
proof (cases "is_numeric_dtype c \<and> max_exceeds c 1000000000")
  case True
  then have "timestamp_path L col c s = None"
    using assms(2) by (simp add: timestamp_path_cases timestamp_like_def)
  then show ?thesis using assms(1) True by (simp add: loop_body_def)
next
  case False
  then show ?thesis using assms(1) by (auto simp add: loop_body_def)
qed

lemma parse_path_cases:
  assumes "take_sample c (rng s) = (sample, r')"
  shows "parse_path L col c s =
     (if sample = [] then Inl ZeroDivisionError
      else if 7 / 10 < real (count_dates L sample) / real (length sample)
      then Inr (s\<lparr>rng := r', df := setitem (df s) col (coerce_column L Infer c),
                  date_cols := date_cols s @ [col]\<rparr>)
      else Inr (s\<lparr>rng := r'\<rparr>))"
  using assms by (simp add: parse_path_def to_datetime_coerce)


text \<open>With the random stream used up, a sample of all values is the values in row order.\<close>

lemma draw_all: "draw (length xs) xs [] = (xs, [])"
  by (induction xs) simp_all

lemma text_sample:
  "good + bad \<le> 10 \<Longrightarrow>
   take_sample (text_column good bad) [] = (values_of (text_column good bad), [])"
  using draw_all [of "values_of (text_column good bad)"]
  by (simp add: take_sample_def text_column_def dropna_def)

lemma text_count: "count_dates toy_lib (values_of (text_column good bad)) = good"
  by (simp add: count_dates_def text_column_def toy_defs)

lemma text_not_timestamp: "\<not> timestamp_like L (text_column good bad)"
  by (simp add: timestamp_like_def text_column_def)

section \<open>The claims\<close>

text \<open>
  C1. A column whose values are all missing should be treated as not-a-date, with no
  mutation and no error. The code divides by the size of the empty sample at line 105,
  outside every \<^verbatim>\<open>try\<close>: on the table whose one column \<^verbatim>\<open>empty\<close> holds three
  missing numbers the detector raises \<^verbatim>\<open>ZeroDivisionError\<close>, whatever the libraries
  and the random stream.
\<close>

theorem all_missing_column_raises:
  "auto_convert_datetime L [(''empty'', NumCol [None, None, None])] r = Inl ZeroDivisionError"
  by (simp add: detector_defs)

text \<open>
  C2. The detector should return normally on every table. It does not: after the text
  column \<^verbatim>\<open>d\<close> has been converted, the all-missing object column \<^verbatim>\<open>note\<close> makes the
  same division raise, and the exception leaves the detector, so that nothing is
  returned.
\<close>

theorem detector_raises_after_good_column:
  "auto_convert_datetime toy_lib
     [(''d'', ObjCol [Str ''2023-01-01'', Str ''2023-01-02'']), (''note'', ObjCol [NA, NA])] r
   = Inl ZeroDivisionError"
  by (cases r) (simp_all add: detector_defs toy_defs Let_def split: prod.splits)

text \<open>
  C5. A numeric column whose maximum exceeds \<^verbatim>\<open>1e9\<close> and whose every value parses
  as seconds since the epoch: the loop body stores the parsed values in the column
  \<^verbatim>\<open>col + '_datetime'\<close>, records the pair in \<^verbatim>\<open>converted_cols\<close>, appends the new
  name to \<^verbatim>\<open>date_cols\<close> and is done with the column (no sample is drawn: the
  random stream is untouched); the original column is still what it was.
\<close>

theorem seconds_timestamp_column:
  assumes "getitem (df s) col = Inr c"
    and "is_numeric_dtype c" and "max_exceeds c 1000000000"
    and "all_parse L (Epoch Seconds) c"
  shows "loop_body L col s =
           Inr (s\<lparr>df := setitem (df s) (col @ ''_datetime'')
                           (DtCol (parsed_values L (Epoch Seconds) c)),
                  converted_cols := setitem (converted_cols s) col (col @ ''_datetime''),
                  date_cols := date_cols s @ [col @ ''_datetime'']\<rparr>)
         \<and> getitem (setitem (df s) (col @ ''_datetime'')
                      (DtCol (parsed_values L (Epoch Seconds) c))) col = Inr c"
proof -
  have "timestamp_path L col c s = Some (derive col (DtCol (parsed_values L (Epoch Seconds) c)) s)"
    using assms(2,4) by (simp add: timestamp_path_cases)
  then have "loop_body L col s = Inr (derive col (DtCol (parsed_values L (Epoch Seconds) c)) s)"
    using assms(1-3) by (simp add: loop_body_def)
  moreover have "map_of (df s) col = Some c"
    using assms(1) by (simp add: getitem_Inr)
  ultimately show ?thesis
    by (simp add: derive_def getitem_Inr map_of_setitem)
qed

text \<open>
  The scenario of the specification: \<^verbatim>\<open>ts\<close> holds three second counts one day apart;
  the new column \<^verbatim>\<open>ts_datetime\<close> holds three time stamps 86400 seconds apart and
  \<^verbatim>\<open>ts\<close> is unchanged.
\<close>

theorem seconds_timestamp_column_witness:
  "loop_body toy_lib ''ts'' (epoch_state [Some 1700000000, Some 1700086400, Some 1700172800]) =
     Inr \<lparr>df = [(''ts'', NumCol [Some 1700000000, Some 1700086400, Some 1700172800]),
                (''ts_datetime'', DtCol [Some 1700000000000000000, Some 1700086400000000000,
                                         Some 1700172800000000000])],
          date_cols = [''ts_datetime''],
          converted_cols = [(''ts'', ''ts_datetime'')],
          rng = []\<rparr>"
proof -
  let ?c = "NumCol [Some 1700000000, Some 1700086400, Some 1700172800]"
  let ?s = "epoch_state [Some 1700000000, Some 1700086400, Some 1700172800]"
  have h1: "getitem (df ?s) ''ts'' = Inr ?c"
    by (simp add: epoch_state_def getitem_def)
  have h2: "is_numeric_dtype ?c" by simp
  have h3: "max_exceeds ?c 1000000000" by (simp add: series_max_def)
  have h4: "all_parse toy_lib (Epoch Seconds) ?c"
    by (simp add: all_parse_def dropna_def toy_defs)
  have "parsed_values toy_lib (Epoch Seconds) ?c =
          [Some 1700000000000000000, Some 1700086400000000000, Some 1700172800000000000]"
    by (simp add: parsed_values_def toy_defs)
  with seconds_timestamp_column [OF h1 h2 h3 h4] show ?thesis
    by (simp add: epoch_state_def)
qed

text \<open>
  C4. A numeric column whose maximum exceeds \<^verbatim>\<open>1e9\<close>, where the seconds reading
  fails and the milliseconds reading succeeds: the loop body stores one derived column,
  \<^verbatim>\<open>col + '_datetime'\<close> (the frame gets at most that one new name), records the pair
  in \<^verbatim>\<open>converted_cols\<close> and appends the new name once to \<^verbatim>\<open>date_cols\<close>.
\<close>

theorem millis_timestamp_column:
  assumes "getitem (df s) col = Inr c"
    and "is_numeric_dtype c" and "max_exceeds c 1000000000"
    and "\<not> all_parse L (Epoch Seconds) c"
    and "all_parse L (Epoch Millis) c"
  shows "loop_body L col s =
           Inr (s\<lparr>df := setitem (df s) (col @ ''_datetime'')
                           (DtCol (parsed_values L (Epoch Millis) c)),
                  converted_cols := setitem (converted_cols s) col (col @ ''_datetime''),
                  date_cols := date_cols s @ [col @ ''_datetime'']\<rparr>)
         \<and> columns (setitem (df s) (col @ ''_datetime'')
                      (DtCol (parsed_values L (Epoch Millis) c))) =
             (if col @ ''_datetime'' \<in> set (columns (df s)) then columns (df s)
              else columns (df s) @ [col @ ''_datetime''])"
proof -
  have "timestamp_path L col c s = Some (derive col (DtCol (parsed_values L (Epoch Millis) c)) s)"
    using assms(2,4,5) by (simp add: timestamp_path_cases)
  then have "loop_body L col s = Inr (derive col (DtCol (parsed_values L (Epoch Millis) c)) s)"
    using assms(1-3) by (simp add: loop_body_def)
  then show ?thesis
    by (simp add: derive_def columns_setitem)
qed

text \<open>
  A millisecond count of 2023 is out of range when read as seconds and in range when
  read as milliseconds; the missing value stays missing.
\<close>

theorem millis_timestamp_column_witness:
  "loop_body toy_lib ''ts'' (epoch_state [Some 1700000000000, None]) =
     Inr \<lparr>df = [(''ts'', NumCol [Some 1700000000000, None]),
                (''ts_datetime'', DtCol [Some 1700000000000000000, None])],
          date_cols = [''ts_datetime''],
          converted_cols = [(''ts'', ''ts_datetime'')],
          rng = []\<rparr>"
proof -
  let ?c = "NumCol [Some 1700000000000, None]"
  let ?s = "epoch_state [Some 1700000000000, None]"
  have h1: "getitem (df ?s) ''ts'' = Inr ?c"
    by (simp add: epoch_state_def getitem_def)
  have h2: "is_numeric_dtype ?c" by simp
  have h3: "max_exceeds ?c 1000000000" by (simp add: series_max_def)
  have h4: "\<not> all_parse toy_lib (Epoch Seconds) ?c"
    by (simp add: all_parse_def dropna_def toy_defs)
  have h5: "all_parse toy_lib (Epoch Millis) ?c"
    by (simp add: all_parse_def dropna_def toy_defs)
  have "parsed_values toy_lib (Epoch Millis) ?c = [Some 1700000000000000000, None]"
    by (simp add: parsed_values_def toy_defs)
  with millis_timestamp_column [OF h1 h2 h3 h4 h5] show ?thesis
    by (simp add: epoch_state_def)
qed



text \<open>
  C6. A column that reaches the sampling step with more than 7/10 of its sample parsing:
  it is replaced, in its place, by a date/time column of the same length in which a cell
  that is missing or does not parse is missing and every other cell is its time stamp (a
  column that was a date/time column already is kept as it is); nothing is raised, and the
  loop goes on with the remaining columns from that state.
\<close>

theorem general_path_coerces:
  assumes "getitem (df s) col = Inr c" and "\<not> timestamp_like L c"
    and "take_sample c (rng s) = (sample, r')"
    and "sample \<noteq> []"
    and "7 / 10 < real (count_dates L sample) / real (length sample)"
  shows "is_datetime_dtype (coerce_column L Infer c)
         \<and> col_len (coerce_column L Infer c) = col_len c
         \<and> (\<forall>i<col_len c. values_of (coerce_column L Infer c) ! i =
               (if is_datetime_dtype c then values_of c ! i
                else coerce_cell L Infer c (values_of c ! i)))
         \<and> columns (setitem (df s) col (coerce_column L Infer c)) = columns (df s)
         \<and> for_columns L (col # cols) s =
             for_columns L cols (s\<lparr>rng := r', df := setitem (df s) col (coerce_column L Infer c),
                                    date_cols := date_cols s @ [col]\<rparr>)"
proof -
  let ?conv = "coerce_column L Infer c"
  have "loop_body L col s = parse_path L col c s"
    using assms(1,2) by (rule reaches_sampling)
  also have "\<dots> = Inr (s\<lparr>rng := r', df := setitem (df s) col ?conv,
                         date_cols := date_cols s @ [col]\<rparr>)"
    unfolding parse_path_cases [OF assms(3)]
    by (simp only: assms(4,5) if_True if_False)
  finally have run: "for_columns L (col # cols) s =
             for_columns L cols (s\<lparr>rng := r', df := setitem (df s) col ?conv,
                                    date_cols := date_cols s @ [col]\<rparr>)"
    by simp
  have "col \<in> set (columns (df s))"
    using assms(1) by (rule getitem_columns)
  then have cols: "columns (setitem (df s) col ?conv) = columns (df s)"
    by (simp add: columns_setitem)
  have cells: "\<forall>i<col_len c. values_of ?conv ! i =
               (if is_datetime_dtype c then values_of c ! i
                else coerce_cell L Infer c (values_of c ! i))"
    by (simp add: values_coerce_column)
  show ?thesis
    using run cols cells datetime_coerce_column [of L Infer c]
      col_len_coerce_column [of L Infer c]
    by blast
qed

text \<open>
  Eight dates and two other texts, all ten sampled: the column \<^verbatim>\<open>d\<close> becomes a
  date/time column whose last two cells are missing, and the loop ends normally.
\<close>

theorem general_path_coerces_witness:
  "for_columns toy_lib [''d''] (text_state 8 2) =
     Inr \<lparr>df = [(''d'', DtCol (replicate 8 (Some 1672531200000000000) @ replicate 2 None))],
          date_cols = [''d''], converted_cols = [], rng = []\<rparr>"
proof -
  have h1: "getitem (df (text_state 8 2)) ''d'' = Inr (text_column 8 2)"
    by (simp add: getitem_def text_state_def)
  have h2: "\<not> timestamp_like toy_lib (text_column 8 2)"
    by (rule text_not_timestamp)
  have h3: "take_sample (text_column 8 2) (rng (text_state 8 2))
            = (values_of (text_column 8 2), [])"
    using text_sample [of 8 2] by (simp add: text_state_def)
  have h4: "values_of (text_column 8 2) \<noteq> []"
    by (simp add: text_column_def)
  have h5: "7 / 10 < real (count_dates toy_lib (values_of (text_column 8 2)))
                     / real (length (values_of (text_column 8 2)))"
    by (simp add: text_count) (simp add: text_column_def)
  have "coerce_column toy_lib Infer (text_column 8 2)
        = DtCol (replicate 8 (Some 1672531200000000000) @ replicate 2 None)"
    by (simp add: coerce_column_def parsed_values_def text_column_def toy_defs)
  with general_path_coerces [OF h1 h2 h3 h4 h5, of "[]"] show ?thesis
    by (simp add: text_state_def)
qed

section \<open>The loop as a whole\<close>

text \<open>
  What one pass of the loop body can do to the state, when it returns: derive a column
  from a timestamp-like one, convert the column in place, or leave the frame alone.
\<close>

lemma col_len_parsed: "col_len (DtCol (parsed_values L k c)) = col_len c"
  by (simp add: col_len_def parsed_values_def)

lemma loop_body_effects:
  assumes "loop_body L col s = Inr s'"
  obtains (derived) c d where "getitem (df s) col = Inr c" "timestamp_like L c"
      "is_datetime_dtype d" "col_len d = col_len c" "s' = derive col d s"
  | (inplace) c d r' where "getitem (df s) col = Inr c" "\<not> timestamp_like L c"
      "is_datetime_dtype d" "col_len d = col_len c"
      "s' = s\<lparr>rng := r', df := setitem (df s) col d, date_cols := date_cols s @ [col]\<rparr>"
  | (skip) c r' where "getitem (df s) col = Inr c" "\<not> timestamp_like L c" "s' = s\<lparr>rng := r'\<rparr>"
proof -
  from assms obtain c where c: "getitem (df s) col = Inr c"
    by (auto simp: loop_body_def split: sum.splits)
  show thesis
  proof (cases "timestamp_like L c")
    case True
    then have num: "is_numeric_dtype c" "max_exceeds c 1000000000"
      by (simp_all add: timestamp_like_def)
    have "\<exists>k. timestamp_path L col c s = Some (derive col (DtCol (parsed_values L k c)) s)"
    proof (cases "all_parse L (Epoch Seconds) c")
      case True
      then show ?thesis using num by (auto simp: timestamp_path_cases)
    next
      case False
      then have "all_parse L (Epoch Millis) c"
        using \<open>timestamp_like L c\<close> by (simp add: timestamp_like_def)
      then show ?thesis using num False by (auto simp: timestamp_path_cases)
    qed
    then obtain k where "timestamp_path L col c s = Some (derive col (DtCol (parsed_values L k c)) s)"
      by blast
    then have "s' = derive col (DtCol (parsed_values L k c)) s"
      using assms c num by (simp add: loop_body_def)
    then show thesis
      using derived [OF c True _ col_len_parsed] by simp
  next
    case False
    obtain sample r' where smp: "take_sample c (rng s) = (sample, r')"
      by (cases "take_sample c (rng s)")
    have "parse_path L col c s = Inr s'"
      using reaches_sampling [OF c False] assms by simp
    then consider "s' = s\<lparr>rng := r', df := setitem (df s) col (coerce_column L Infer c),
                  date_cols := date_cols s @ [col]\<rparr>" | "s' = s\<lparr>rng := r'\<rparr>"
      by (auto simp: parse_path_cases [OF smp] split: if_splits)
    then show thesis
    proof cases
      case 1
      then show ?thesis
        using inplace [OF c False datetime_coerce_column col_len_coerce_column] by blast
    next
      case 2
      then show ?thesis using skip [OF c False] by blast
    qed
  qed
qed

lemma columns_setitem_subset: "set (columns t) \<subseteq> set (columns (setitem t k v))"
  by (auto simp: columns_setitem)

lemma columns_setitem_mem: "k \<in> set (columns (setitem t k v))"
  by (auto simp: columns_setitem)

lemma loop_body_conversions_ok:
  assumes "loop_body L col s = Inr s'" and "conversions_ok s"
  shows "conversions_ok s'"
  using assms(1)
proof (cases rule: loop_body_effects)
  case (derived c d)
  show ?thesis
    unfolding conversions_ok_def
  proof
    fix p assume "p \<in> set (converted_cols s')"
    then have "p = (col, col @ ''_datetime'') \<or> p \<in> set (converted_cols s)"
      using set_setitem [of "converted_cols s" col "col @ ''_datetime''"]
      by (auto simp: derived(5) derive_def)
    then show "snd p = fst p @ ''_datetime'' \<and> snd p \<in> set (columns (df s'))"
      using assms(2) columns_setitem_subset [of "df s" "col @ ''_datetime''" d]
        columns_setitem_mem [of "col @ ''_datetime''" "df s" d]
      by (auto simp: derived(5) derive_def conversions_ok_def)
  qed
next
  case (inplace c d r')
  have "columns (setitem (df s) col d) = columns (df s)"
    using getitem_columns [OF inplace(1)] by (simp add: columns_setitem)
  then show ?thesis
    using assms(2) by (auto simp: inplace(5) conversions_ok_def)
next
  case (skip c r')
  then show ?thesis using assms(2) by (auto simp: conversions_ok_def)
qed

lemma for_columns_conversions_ok:
  "for_columns L cols s = Inr s' \<Longrightarrow> conversions_ok s \<Longrightarrow> conversions_ok s'"
proof (induction cols arbitrary: s)
  case Nil
  then show ?case by simp
next
  case (Cons col cols)
  then show ?case
    by (auto split: sum.splits dest: loop_body_conversions_ok)
qed

text \<open>The detector on the example table, and again on its own result.\<close>

lemma mixed_run:
  "auto_convert_datetime toy_lib mixed_table [] =
     Inr (mixed_result, [''ts_datetime'', ''d''], [(''ts'', ''ts_datetime'')])"
  by (simp add: mixed_table_def mixed_result_def detector_defs toy_defs)

lemma mixed_rerun:
  "auto_convert_datetime toy_lib mixed_result [] =
     Inr (mixed_result, [''ts_datetime'', ''d'', ''ts_datetime''], [(''ts'', ''ts_datetime'')])"
  by (simp add: mixed_result_def detector_defs toy_defs)

text \<open>
  C8. Every entry of the returned conversions mapping pairs a source name with that name
  suffixed by \<^verbatim>\<open>_datetime\<close>, and the derived name is a column of the returned table.
\<close>

theorem conversions_name_existing_columns:
  assumes "auto_convert_datetime L t r = Inr (t', dates, conversions)"
    and "(source, derived) \<in> set conversions"
  shows "derived \<in> set (columns t') \<and> derived = source @ ''_datetime''"
proof -
  let ?s0 = "\<lparr>df = t, date_cols = [], converted_cols = [], rng = r\<rparr>"
  from assms(1) obtain s where run: "for_columns L (columns t) ?s0 = Inr s"
    and res: "t' = df s" "conversions = converted_cols s"
    by (auto simp: auto_convert_datetime_def split: sum.splits)
  have "conversions_ok ?s0" by (simp add: conversions_ok_def)
  with run have "conversions_ok s" by (rule for_columns_conversions_ok)
  then show ?thesis
    using assms(2) res by (auto simp: conversions_ok_def)
qed

text \<open>The run on the example table records \<^verbatim>\<open>ts\<close> with \<^verbatim>\<open>ts_datetime\<close>.\<close>

theorem conversions_name_existing_columns_witness:
  "''ts_datetime'' \<in> set (columns mixed_result) \<and> ''ts_datetime'' = ''ts'' @ ''_datetime''"
  using conversions_name_existing_columns [OF mixed_run, of "''ts''" "''ts_datetime''"]
  by simp

subsection \<open>Columns and rows are kept\<close>

lemma has_rows_setitem:
  "has_rows t n \<Longrightarrow> col_len d = n \<Longrightarrow> has_rows (setitem t k d) n"
  by (induction t) (auto simp: has_rows_def)

lemma has_rows_getitem: "has_rows t n \<Longrightarrow> getitem t col = Inr c \<Longrightarrow> col_len c = n"
  by (auto simp: has_rows_def getitem_Inr list_all_iff dest!: map_of_SomeD)

lemma columns_setitem_prefix: "\<exists>added. columns (setitem t k v) = columns t @ added"
  by (simp add: columns_setitem)

lemma loop_body_frame:
  assumes "loop_body L col s = Inr s'"
  shows "(\<exists>added. columns (df s') = columns (df s) @ added)
       \<and> (has_rows (df s) n \<longrightarrow> has_rows (df s') n)"
  using assms
proof (cases rule: loop_body_effects)
  case (derived c d)
  then show ?thesis
    using columns_setitem_prefix [of "df s" "col @ ''_datetime''" d]
    by (auto simp: derive_def intro!: has_rows_setitem dest: has_rows_getitem)
next
  case (inplace c d r')
  then show ?thesis
    using columns_setitem_prefix [of "df s" col d]
    by (auto intro!: has_rows_setitem dest: has_rows_getitem)
next
  case (skip c r')
  then show ?thesis by simp
qed

lemma for_columns_frame:
  "for_columns L cols s = Inr s' \<Longrightarrow>
     (\<exists>added. columns (df s') = columns (df s) @ added)
   \<and> (has_rows (df s) n \<longrightarrow> has_rows (df s') n)"
proof (induction cols arbitrary: s)
  case Nil
  then show ?case by simp
next
  case (Cons col cols)
  from Cons.prems obtain s1 where s1: "loop_body L col s = Inr s1"
    and rest: "for_columns L cols s1 = Inr s'"
    by (auto split: sum.splits)
  from loop_body_frame [OF s1, of n] Cons.IH [OF rest] show ?case
    by auto
qed

text \<open>
  C10. When the detector returns, the names of the input columns are the first names of
  the returned table, in their order (new names come after them), so no input column is
  missing; and if every input column has \<open>n\<close> rows, so has every returned column.
\<close>

theorem no_column_or_row_removed:
  assumes "auto_convert_datetime L t r = Inr (t', dates, conversions)"
  shows "(\<exists>added. columns t' = columns t @ added)
       \<and> set (columns t) \<subseteq> set (columns t')
       \<and> (\<forall>n. has_rows t n \<longrightarrow> has_rows t' n)"
proof -
  let ?s0 = "\<lparr>df = t, date_cols = [], converted_cols = [], rng = r\<rparr>"
  from assms(1) obtain s where run: "for_columns L (columns t) ?s0 = Inr s"
    and res: "t' = df s"
    by (auto simp: auto_convert_datetime_def split: sum.splits)
  have frame: "(\<exists>added. columns t' = columns t @ added) \<and> (has_rows t n \<longrightarrow> has_rows t' n)" for n
    using for_columns_frame [OF run, of n] res by simp
  then obtain added where "columns t' = columns t @ added" by blast
  then have "set (columns t) \<subseteq> set (columns t')" by simp
  then show ?thesis using frame by blast
qed

text \<open>The example table has four rows and keeps them; \<^verbatim>\<open>ts_datetime\<close> comes last.\<close>

theorem no_column_or_row_removed_witness:
  "has_rows mixed_table 4
   \<and> (\<exists>added. columns mixed_result = columns mixed_table @ added)
   \<and> set (columns mixed_table) \<subseteq> set (columns mixed_result)
   \<and> has_rows mixed_result 4"
proof -
  have "has_rows mixed_table 4"
    by (simp add: has_rows_def mixed_table_def col_len_def)
  with no_column_or_row_removed [OF mixed_run] show ?thesis by blast
qed

subsection \<open>A second run\<close>

text \<open>
  A date/time column never takes the timestamp path; all its sampled values are time
  stamps, so it is converted in place (to itself) and listed whenever the permissive
  parser accepts the text of a time stamp.
\<close>

lemma draw_subset: "set (fst (draw n xs r)) \<subseteq> set xs"
proof (induction n xs r rule: draw.induct)
  case (1 xs rs)
  then show ?case by simp
next
  case (2 n rs)
  then show ?case by simp
next
  case (3 n x xs)
  then show ?case by (auto split: prod.splits)
next
  case (4 n x xs r rs)
  let ?i = "r mod length (x # xs)"
  let ?rest = "take ?i (x # xs) @ drop (Suc ?i) (x # xs)"
  have "set (fst (draw n ?rest rs)) \<subseteq> set ?rest"
    using 4 by simp
  moreover have "set ?rest \<subseteq> set (x # xs)"
    using set_take_subset [of ?i "x # xs"] set_drop_subset [of "Suc ?i" "x # xs"]
    by auto
  moreover have "(x # xs) ! ?i \<in> set (x # xs)"
    by (rule nth_mem) simp
  ultimately show ?case
    by (auto simp: Let_def split: prod.splits)
qed

lemma datetime_sample:
  assumes "is_datetime_dtype c" and "take_sample c r = (sample, r')" and "v \<in> set sample"
  shows "\<exists>t. v = Dt t"
proof -
  from assms(1) obtain ts where c: "c = DtCol ts" by (cases c) simp_all
  have "set sample \<subseteq> set (dropna (values_of c))"
    using draw_subset [of "min 10 (length (dropna (values_of c)))" "dropna (values_of c)" r] assms(2)
    by (simp add: take_sample_def Let_def)
  with assms(3) have "v \<in> set (map dt_cell ts)" "v \<noteq> NA"
    by (auto simp: c dropna_def)
  then obtain x where "v = dt_cell x" by auto
  with \<open>v \<noteq> NA\<close> show ?thesis by (cases x) simp_all
qed

lemma datetime_column_classified:
  assumes "loop_body L col s = Inr s'" and "getitem (df s) col = Inr c"
    and "is_datetime_dtype c" and "\<forall>t. dateutil_parse L (py_str L (Dt t))"
  shows "col \<in> set (date_cols s')"
proof -
  have nts: "\<not> timestamp_like L c"
    using assms(3) numeric_not_datetime by (auto simp: timestamp_like_def)
  obtain sample r' where smp: "take_sample c (rng s) = (sample, r')"
    by (cases "take_sample c (rng s)")
  have "\<forall>v\<in>set sample. dateutil_parse L (py_str L v)"
    using datetime_sample [OF assms(3) smp] assms(4) by blast
  then have cnt: "count_dates L sample = length sample"
    by (simp add: count_dates_def)
  have "parse_path L col c s = Inr s'"
    using reaches_sampling [OF assms(2) nts] assms(1) by simp
  then have "sample \<noteq> []" and s': "s' = (if 7 / 10 < real (count_dates L sample) / real (length sample)
      then s\<lparr>rng := r', df := setitem (df s) col (coerce_column L Infer c),
                  date_cols := date_cols s @ [col]\<rparr>
      else s\<lparr>rng := r'\<rparr>)"
    by (auto simp: parse_path_cases [OF smp] split: if_splits)
  then have "real (count_dates L sample) / real (length sample) = 1"
    by (simp add: cnt)
  with s' show ?thesis by simp
qed

lemma loop_body_keeps_datetime:
  assumes "loop_body L col s = Inr s'" and "getitem (df s) name = Inr c" and "is_datetime_dtype c"
  shows "\<exists>c'. getitem (df s') name = Inr c' \<and> is_datetime_dtype c'"
  using assms(1)
proof (cases rule: loop_body_effects)
  case (derived c0 d)
  then show ?thesis using assms(2,3)
    by (auto simp: derive_def getitem_Inr map_of_setitem)
next
  case (inplace c0 d r')
  then show ?thesis using assms(2,3)
    by (auto simp: getitem_Inr map_of_setitem)
next
  case (skip c0 r')
  then show ?thesis using assms(2,3) by simp
qed

lemma loop_body_dates_mono:
  assumes "loop_body L col s = Inr s'"
  shows "set (date_cols s) \<subseteq> set (date_cols s')"
  using assms by (cases rule: loop_body_effects) (auto simp: derive_def)

lemma for_columns_dates_mono:
  "for_columns L cols s = Inr s' \<Longrightarrow> set (date_cols s) \<subseteq> set (date_cols s')"
proof (induction cols arbitrary: s)
  case Nil
  then show ?case by simp
next
  case (Cons col cols)
  from Cons.prems obtain s1 where s1: "loop_body L col s = Inr s1"
    and rest: "for_columns L cols s1 = Inr s'"
    by (auto split: sum.splits)
  from loop_body_dates_mono [OF s1] Cons.IH [OF rest] show ?case by blast
qed

lemma for_columns_keeps_datetime:
  "for_columns L cols s = Inr s' \<Longrightarrow> getitem (df s) name = Inr c \<Longrightarrow> is_datetime_dtype c \<Longrightarrow>
     \<exists>c'. getitem (df s') name = Inr c' \<and> is_datetime_dtype c'"
proof (induction cols arbitrary: s c)
  case Nil
  then show ?case by simp
next
  case (Cons col cols)
  from Cons.prems(1) obtain s1 where s1: "loop_body L col s = Inr s1"
    and rest: "for_columns L cols s1 = Inr s'"
    by (auto split: sum.splits)
  from loop_body_keeps_datetime [OF s1 Cons.prems(2,3)]
  obtain c1 where "getitem (df s1) name = Inr c1" "is_datetime_dtype c1" by blast
  then show ?case using Cons.IH [OF rest] by blast
qed

lemma for_columns_classifies_datetime:
  "for_columns L cols s = Inr s' \<Longrightarrow> name \<in> set cols \<Longrightarrow> getitem (df s) name = Inr c \<Longrightarrow>
   is_datetime_dtype c \<Longrightarrow> \<forall>t. dateutil_parse L (py_str L (Dt t)) \<Longrightarrow>
     name \<in> set (date_cols s')"
proof (induction cols arbitrary: s c)
  case Nil
  then show ?case by simp
next
  case (Cons col cols)
  from Cons.prems(1) obtain s1 where s1: "loop_body L col s = Inr s1"
    and rest: "for_columns L cols s1 = Inr s'"
    by (auto split: sum.splits)
  show ?case
  proof (cases "name = col")
    case True
    then have "name \<in> set (date_cols s1)"
      using datetime_column_classified [OF s1 _ Cons.prems(4,5)] Cons.prems(3) by simp
    then show ?thesis using for_columns_dates_mono [OF rest] by blast
  next
    case False
    then have mem: "name \<in> set cols" using Cons.prems(2) by simp
    from loop_body_keeps_datetime [OF s1 Cons.prems(3,4)]
    obtain c1 where "getitem (df s1) name = Inr c1" "is_datetime_dtype c1" by blast
    then show ?thesis using Cons.IH [OF rest mem _ _ Cons.prems(5)] by blast
  qed
qed

lemma datetime_not_timestamp: "is_datetime_dtype d \<Longrightarrow> \<not> timestamp_like L d"
  using numeric_not_datetime by (auto simp: timestamp_like_def)

lemma loop_body_derived_present:
  assumes "loop_body L col s = Inr s'" and "derived_present L (col # cols) (df s)"
  shows "derived_present L cols (df s')"
  using assms(1)
proof (cases rule: loop_body_effects)
  case (derived c d)
  have new: "df s' = setitem (df s) (col @ ''_datetime'') d"
    by (simp add: derived(5) derive_def)
  show ?thesis
    unfolding derived_present_def
  proof (intro allI impI)
    fix name c' assume a: "getitem (df s') name = Inr c' \<and> timestamp_like L c'"
    then have ne: "name \<noteq> col @ ''_datetime''"
      using datetime_not_timestamp [OF derived(3), of L]
      by (auto simp: new getitem_Inr map_of_setitem)
    with a have "getitem (df s) name = Inr c'"
      by (simp add: new getitem_Inr map_of_setitem)
    with a assms(2) have "name \<in> set (col # cols) \<or> name @ ''_datetime'' \<in> set (columns (df s))"
      by (auto simp: derived_present_def)
    then show "name \<in> set cols \<or> name @ ''_datetime'' \<in> set (columns (df s'))"
      using columns_setitem_subset [of "df s" "col @ ''_datetime''" d]
        columns_setitem_mem [of "col @ ''_datetime''" "df s" d]
      by (auto simp: new)
  qed
next
  case (inplace c d r')
  have new: "df s' = setitem (df s) col d"
    by (simp add: inplace(5))
  show ?thesis
    unfolding derived_present_def
  proof (intro allI impI)
    fix name c' assume a: "getitem (df s') name = Inr c' \<and> timestamp_like L c'"
    then have ne: "name \<noteq> col"
      using datetime_not_timestamp [OF inplace(3), of L]
      by (auto simp: new getitem_Inr map_of_setitem)
    with a have "getitem (df s) name = Inr c'"
      by (simp add: new getitem_Inr map_of_setitem)
    with a assms(2) have "name \<in> set (col # cols) \<or> name @ ''_datetime'' \<in> set (columns (df s))"
      by (auto simp: derived_present_def)
    then show "name \<in> set cols \<or> name @ ''_datetime'' \<in> set (columns (df s'))"
      using columns_setitem_subset [of "df s" col d] ne
      by (auto simp: new)
  qed
next
  case (skip c r')
  show ?thesis
    unfolding derived_present_def
  proof (intro allI impI)
    fix name c' assume a: "getitem (df s') name = Inr c' \<and> timestamp_like L c'"
    then have ne: "name \<noteq> col"
      using skip by auto
    from a assms(2) have "name \<in> set (col # cols) \<or> name @ ''_datetime'' \<in> set (columns (df s))"
      by (auto simp: derived_present_def skip(3))
    then show "name \<in> set cols \<or> name @ ''_datetime'' \<in> set (columns (df s'))"
      using ne by (auto simp: skip(3))
  qed
qed

lemma for_columns_derived_present:
  "for_columns L cols s = Inr s' \<Longrightarrow> derived_present L cols (df s) \<Longrightarrow>
     derived_present L [] (df s')"
proof (induction cols arbitrary: s)
  case Nil
  then show ?case by simp
next
  case (Cons col cols)
  from Cons.prems(1) obtain s1 where s1: "loop_body L col s = Inr s1"
    and rest: "for_columns L cols s1 = Inr s'"
    by (auto split: sum.splits)
  from loop_body_derived_present [OF s1 Cons.prems(2)] Cons.IH [OF rest] show ?case by blast
qed

lemma loop_body_second_run:
  assumes "loop_body L col s = Inr s'" and "derived_present L [] (df s)"
  shows "columns (df s') = columns (df s) \<and> derived_present L [] (df s')"
proof -
  have "derived_present L (col # []) (df s)"
    using assms(2) by (auto simp: derived_present_def)
  then have dp: "derived_present L [] (df s')"
    using loop_body_derived_present [OF assms(1)] by simp
  have "columns (df s') = columns (df s)"
    using assms(1)
  proof (cases rule: loop_body_effects)
    case (derived c d)
    then have "col @ ''_datetime'' \<in> set (columns (df s))"
      using assms(2) by (auto simp: derived_present_def)
    then show ?thesis by (simp add: derived(5) derive_def columns_setitem)
  next
    case (inplace c d r')
    then show ?thesis using getitem_columns [OF inplace(1)] by (simp add: columns_setitem)
  next
    case (skip c r')
    then show ?thesis by simp
  qed
  with dp show ?thesis by simp
qed

lemma for_columns_second_run:
  "for_columns L cols s = Inr s' \<Longrightarrow> derived_present L [] (df s) \<Longrightarrow>
     columns (df s') = columns (df s)"
proof (induction cols arbitrary: s)
  case Nil
  then show ?case by simp
next
  case (Cons col cols)
  from Cons.prems(1) obtain s1 where s1: "loop_body L col s = Inr s1"
    and rest: "for_columns L cols s1 = Inr s'"
    by (auto split: sum.splits)
  from loop_body_second_run [OF s1 Cons.prems(2)] Cons.IH [OF rest] show ?case by simp
qed

text \<open>
  C7. Running the detector on its own output: when both runs return, the second run
  leaves the column names of the table as the first run returned them (no second
  \<^verbatim>\<open>_datetime\<close> column and no \<^verbatim>\<open>_datetime_datetime\<close> column appears), and a
  column that was of date/time type after the first run is of date/time type after the
  second and is in its list of date columns. The detector has no test for the date/time
  dtype: it recognises such a column by parsing the text of its sampled values, so the
  last part holds for a parser that accepts the text of every time stamp.
\<close>

theorem detection_idempotent:
  assumes "auto_convert_datetime L t r1 = Inr (t1, dates1, conversions1)"
    and "auto_convert_datetime L t1 r2 = Inr (t2, dates2, conversions2)"
    and "\<forall>ts. dateutil_parse L (py_str L (Dt ts))"
  shows "columns t2 = columns t1
       \<and> (\<forall>name c. getitem t1 name = Inr c \<and> is_datetime_dtype c \<longrightarrow>
            (\<exists>c'. getitem t2 name = Inr c' \<and> is_datetime_dtype c') \<and> name \<in> set dates2)"
proof -
  let ?s1 = "\<lparr>df = t, date_cols = [], converted_cols = [], rng = r1\<rparr>"
  let ?s2 = "\<lparr>df = t1, date_cols = [], converted_cols = [], rng = r2\<rparr>"
  from assms(1) obtain s where run1: "for_columns L (columns t) ?s1 = Inr s" and t1: "t1 = df s"
    by (auto simp: auto_convert_datetime_def split: sum.splits)
  from assms(2) obtain s' where run2: "for_columns L (columns t1) ?s2 = Inr s'"
    and t2: "t2 = df s'" "dates2 = date_cols s'"
    by (auto simp: auto_convert_datetime_def split: sum.splits)
  have "derived_present L (columns t) (df ?s1)"
    by (auto simp: derived_present_def dest: getitem_columns)
  with run1 have dp: "derived_present L [] t1"
    unfolding t1 by (rule for_columns_derived_present)
  have cols: "columns t2 = columns t1"
    using for_columns_second_run [OF run2] dp by (simp add: t2)
  have "(\<exists>c'. getitem t2 name = Inr c' \<and> is_datetime_dtype c') \<and> name \<in> set dates2"
    if "getitem t1 name = Inr c" "is_datetime_dtype c" for name c
  proof
    show "\<exists>c'. getitem t2 name = Inr c' \<and> is_datetime_dtype c'"
      using for_columns_keeps_datetime [OF run2, of name c] that by (simp add: t2)
    have "name \<in> set (columns t1)" using that(1) by (rule getitem_columns)
    then show "name \<in> set dates2"
      using for_columns_classifies_datetime [OF run2, of name c] that assms(3) by (simp add: t2)
  qed
  with cols show ?thesis by blast
qed

text \<open>
  On the example table the second run returns the same three columns; its list of date
  columns names \<^verbatim>\<open>ts_datetime\<close> once for the source column and once for the column
  itself.
\<close>

theorem detection_idempotent_witness:
  "columns mixed_result = [''ts'', ''d'', ''ts_datetime'']
   \<and> (\<exists>c'. getitem mixed_result ''d'' = Inr c' \<and> is_datetime_dtype c')
   \<and> ''d'' \<in> set [''ts_datetime'', ''d'', ''ts_datetime'']"
proof -
  have lib: "\<forall>ts. dateutil_parse toy_lib (py_str toy_lib (Dt ts))"
    by (simp add: toy_defs)
  have d: "getitem mixed_result ''d'' =
             Inr (DtCol [Some 1672531200000000000, Some 1672617600000000000, None,
                         Some 1672790400000000000])
           \<and> is_datetime_dtype (DtCol [Some 1672531200000000000, Some 1672617600000000000, None,
                         Some 1672790400000000000])"
    by (simp add: getitem_def mixed_result_def)
  have "columns mixed_result = [''ts'', ''d'', ''ts_datetime'']"
    by (simp add: columns_def mixed_result_def)
  with detection_idempotent [OF mixed_run mixed_rerun lib] d show ?thesis
    by blast
qed

section \<open>The manual conversion\<close>






end
